theory Spec2Isabelle
  imports Main
begin

section \<open>The DSV parser of libpt (DSV.h)\<close>

subsection \<open>The callback sink\<close>

text \<open>
  The parser drives a caller-supplied object through five hooks. The hooks are opaque
  to the parser, so the model records which hook was invoked, with which argument, in
  the order of invocation.
\<close>

datatype notification =
    OnRecordStart
  | OnFieldCharacter char
  | OnFieldEnd
  | OnRecordEnd
  | OnReset

subsection \<open>The parser object\<close>

text \<open>
  \<open>Escaping\<close> and \<open>InRecord\<close> are the two private flags of \<open>DSVParser\<close>.
  \<open>Separator\<close> and \<open>Escape\<close> are what \<open>GetSeparator()\<close> and \<open>GetEscape()\<close>
  return, and \<open>Hooks\<close> is the sequence of notifications the sink has received so far.
\<close>

record DSVParser =
  Escaping :: bool
  InRecord :: bool
  Separator :: char
  Escape :: char
  Hooks :: "notification list"

text \<open>The character literal \<open>'\n'\<close> of the source.\<close>

definition newline :: char where
  "newline = CHR 0x0A"

text \<open>\<open>UnixDSVParser::Escape\<close> is \<open>'\\'\<close> and \<open>UnixDSVParser::Separator\<close> is \<open>':'\<close>.\<close>

definition UnixDSVParser_Escape :: char where
  "UnixDSVParser_Escape = CHR 0x5C"

definition UnixDSVParser_Separator :: char where
  "UnixDSVParser_Separator = CHR '':''"

text \<open>One call of a hook of the sink.\<close>

definition emit :: "notification \<Rightarrow> DSVParser \<Rightarrow> DSVParser" where
  "emit n p = p\<lparr>Hooks := Hooks p @ [n]\<rparr>"

text \<open>The constructor: both flags false, on a sink that has not been called yet.\<close>

definition DSVParser_new :: "char \<Rightarrow> char \<Rightarrow> DSVParser" where
  "DSVParser_new sep esc =
     \<lparr>Escaping = False, InRecord = False, Separator = sep, Escape = esc, Hooks = []\<rparr>"

text \<open>
  \<open>HandleParsedCharacter\<close>, branch by branch. The record-start test runs before the
  chain on the character, and the chain tests the separator first, then the escape
  character, then the newline.
\<close>

definition HandleParsedCharacter :: "char \<Rightarrow> DSVParser \<Rightarrow> DSVParser" where
  "HandleParsedCharacter c p =
     (if Escaping p then (emit (OnFieldCharacter c) p)\<lparr>Escaping := False\<rparr>
      else
        let q = (if \<not> InRecord p \<and> c \<noteq> newline
                 then emit OnRecordStart (p\<lparr>InRecord := True\<rparr>)
                 else p)
        in if c = Separator q then emit OnFieldEnd q
           else if c = Escape q then q\<lparr>Escaping := True\<rparr>
           else if c = newline then
             (if InRecord q
              then emit OnRecordEnd ((emit OnFieldEnd q)\<lparr>InRecord := False\<rparr>)
              else q)
           else emit (OnFieldCharacter c) q)"

definition FeedCharacter :: "char \<Rightarrow> DSVParser \<Rightarrow> DSVParser" where
  "FeedCharacter c p = HandleParsedCharacter c p"

definition FinishParsing :: "DSVParser \<Rightarrow> DSVParser" where
  "FinishParsing p =
     (if InRecord p
      then emit OnRecordEnd ((emit OnFieldEnd p)\<lparr>Escaping := False, InRecord := False\<rparr>)
      else p)"

definition Reset :: "DSVParser \<Rightarrow> DSVParser" where
  "Reset p = emit OnReset (p\<lparr>Escaping := False, InRecord := False\<rparr>)"

subsection \<open>Sequences of calls\<close>

text \<open>
  The states a parser can be in: those the constructor gives, closed under the three
  public operations that change the flags.
\<close>

inductive reachable :: "char \<Rightarrow> char \<Rightarrow> DSVParser \<Rightarrow> bool" for sep esc where
  constructed: "reachable sep esc (DSVParser_new sep esc)"
| fed: "reachable sep esc p \<Longrightarrow> reachable sep esc (FeedCharacter c p)"
| finished: "reachable sep esc p \<Longrightarrow> reachable sep esc (FinishParsing p)"
| was_reset: "reachable sep esc p \<Longrightarrow> reachable sep esc (Reset p)"

text \<open>
  Record starts the sink has seen minus record ends it has seen: the number of records
  that were opened and not yet closed.
\<close>

definition starts :: "DSVParser \<Rightarrow> nat" where
  "starts p = count_list (Hooks p) OnRecordStart"

definition ends :: "DSVParser \<Rightarrow> nat" where
  "ends p = count_list (Hooks p) OnRecordEnd"

section \<open>The readers of StringReader.h\<close>

text \<open>
  \<open>ReadChar\<close> throws \<open>EOFException\<close> at the end of its string. Dereferencing an
  iterator or a pointer outside the characters it ranges over has no defined behaviour
  in C++; the model makes it the result \<open>InvalidRead\<close>, which nothing catches.
\<close>

datatype error = EOFException | InvalidRead

subsection \<open>StringReader\<close>

text \<open>
  An iterator into the backing string is the index of the character it points at;
  \<open>end()\<close> is the length of the string.
\<close>

record StringReader =
  BackingString :: string
  Current :: nat
  End :: nat

definition StringReader_new :: "string \<Rightarrow> StringReader" where
  "StringReader_new backing_string =
     \<lparr>BackingString = backing_string, Current = 0, End = length backing_string\<rparr>"

definition StringReader_ReadChar :: "StringReader \<Rightarrow> error + char \<times> StringReader" where
  "StringReader_ReadChar r =
     (if StringReader.Current r = End r then Inl EOFException
      else if StringReader.Current r < length (StringReader.BackingString r)
      then Inr (StringReader.BackingString r ! StringReader.Current r,
                r\<lparr>StringReader.Current := StringReader.Current r + 1\<rparr>)
      else Inl InvalidRead)"

definition StringReader_IsEOF :: "StringReader \<Rightarrow> error + bool" where
  "StringReader_IsEOF r = Inr (StringReader.Current r = End r)"

subsection \<open>CStringReader\<close>

text \<open>
  A \<open>const char *\<close> is an offset into the array of characters it points into. The
  reader holds the array as it is laid out from the address \<open>backing_string\<close> on;
  \<open>Current\<close> is an offset from that address. The terminating \<open>'\0'\<close> is a
  character of the array like any other.
\<close>

definition NUL :: char where
  "NUL = CHR 0x00"

record CStringReader =
  BackingString :: "char list"
  Current :: nat

definition CStringReader_new :: "char list \<Rightarrow> CStringReader" where
  "CStringReader_new backing_string = \<lparr>BackingString = backing_string, Current = 0\<rparr>"

text \<open>\<open>*Current\<close>\<close>

definition deref :: "CStringReader \<Rightarrow> error + char" where
  "deref r =
     (if CStringReader.Current r < length (CStringReader.BackingString r)
      then Inr (CStringReader.BackingString r ! CStringReader.Current r)
      else Inl InvalidRead)"

definition CStringReader_ReadChar :: "CStringReader \<Rightarrow> error + char \<times> CStringReader" where
  "CStringReader_ReadChar r =
     (case deref r of
        Inl e \<Rightarrow> Inl e
      | Inr c \<Rightarrow>
          if c = NUL then Inl EOFException
          else Inr (c, r\<lparr>CStringReader.Current := CStringReader.Current r + 1\<rparr>))"

definition CStringReader_IsEOF :: "CStringReader \<Rightarrow> error + bool" where
  "CStringReader_IsEOF r = (case deref r of Inl e \<Rightarrow> Inl e | Inr c \<Rightarrow> Inr (c = NUL))"

section \<open>Parse (DSV.h)\<close>

text \<open>
  \<open>Parse\<close> is a template over the reader: it uses \<open>IsEOF\<close> and \<open>ReadChar\<close> of
  whatever reader it is given, in a loop with no bound of its own, inside a
  \<open>try\<close> block whose handler catches \<open>EOFException\<close> and does nothing. The result is
  \<open>None\<close> when the loop does not end, and otherwise the parser and the reader as the
  loop leaves them, or the error that was not caught. Both string readers throw before
  they change anything, so the reader after a caught exception is the reader before
  the call.
\<close>

partial_function (option) Parse ::
  "('r \<Rightarrow> error + bool) \<Rightarrow> ('r \<Rightarrow> error + char \<times> 'r) \<Rightarrow> 'r \<Rightarrow> DSVParser
     \<Rightarrow> (error + DSVParser \<times> 'r) option" where
  "Parse IsEOF ReadChar reader p =
     (case IsEOF reader of
        Inl e \<Rightarrow> Some (if e = EOFException then Inr (p, reader) else Inl e)
      | Inr eof \<Rightarrow>
          if eof then Some (Inr (p, reader))
          else
            (case ReadChar reader of
               Inl e \<Rightarrow> Some (if e = EOFException then Inr (p, reader) else Inl e)
             | Inr (c, reader') \<Rightarrow>
                 Parse IsEOF ReadChar reader' (HandleParsedCharacter c p)))"

section \<open>Basic facts about one step\<close>

lemmas dsv_defs =
  FeedCharacter_def HandleParsedCharacter_def FinishParsing_def Reset_def
  DSVParser_new_def emit_def newline_def NUL_def
  UnixDSVParser_Separator_def UnixDSVParser_Escape_def Let_def

lemma emit_fields [simp]:
  "Escaping (emit n p) = Escaping p"
  "InRecord (emit n p) = InRecord p"
  "Separator (emit n p) = Separator p"
  "Escape (emit n p) = Escape p"
  "Hooks (emit n p) = Hooks p @ [n]"
  by (simp_all add: emit_def)

section \<open>Worked inputs\<close>

text \<open>
  C7. From the initial state with separator \<open>:\<close> and escape \<open>\\<close>, feeding the four
  characters \<open>a\<close>, \<open>:\<close>, \<open>b\<close>, newline makes the sink receive exactly OnRecordStart,
  OnFieldCharacter a, OnFieldEnd, OnFieldCharacter b, OnFieldEnd, OnRecordEnd, in that
  order and nothing else.
\<close>

theorem feed_a_colon_b_newline:
  "Hooks (fold FeedCharacter [CHR ''a'', CHR '':'', CHR ''b'', newline]
            (DSVParser_new UnixDSVParser_Separator UnixDSVParser_Escape))
   = [OnRecordStart, OnFieldCharacter (CHR ''a''), OnFieldEnd,
      OnFieldCharacter (CHR ''b''), OnFieldEnd, OnRecordEnd]"
  by (simp add: dsv_defs)

text \<open>
  C4. Feeding \<open>a\<close>, \<open>:\<close>, \<open>b\<close> with no newline after them and then calling
  FinishParsing gives OnRecordStart, OnFieldCharacter a, OnFieldEnd, OnFieldCharacter b,
  OnFieldEnd, OnRecordEnd, which is also what feeding \<open>a\<close>, \<open>:\<close>, \<open>b\<close>, newline gives
  without FinishParsing.
\<close>

theorem feed_a_colon_b_finish:
  "Hooks (FinishParsing (fold FeedCharacter [CHR ''a'', CHR '':'', CHR ''b'']
            (DSVParser_new UnixDSVParser_Separator UnixDSVParser_Escape)))
   = [OnRecordStart, OnFieldCharacter (CHR ''a''), OnFieldEnd,
      OnFieldCharacter (CHR ''b''), OnFieldEnd, OnRecordEnd]
   \<and> Hooks (FinishParsing (fold FeedCharacter [CHR ''a'', CHR '':'', CHR ''b'']
            (DSVParser_new UnixDSVParser_Separator UnixDSVParser_Escape)))
   = Hooks (fold FeedCharacter [CHR ''a'', CHR '':'', CHR ''b'', newline]
            (DSVParser_new UnixDSVParser_Separator UnixDSVParser_Escape))"
  by (simp add: dsv_defs)

section \<open>Escaped characters\<close>

text \<open>
  C2. In every parser state in which Escaping is true, and for every character \<open>c\<close>,
  FeedCharacter \<open>c\<close> makes exactly one call of the sink, OnFieldCharacter \<open>c\<close>, and
  clears Escaping, whatever \<open>c\<close> is (the separator, the escape character and the
  newline included). In particular, feeding \<open>a\<close>, \<open>\\<close>, \<open>:\<close>, \<open>b\<close>, newline with
  separator \<open>:\<close> and escape \<open>\\<close> gives one record with the single field whose
  characters are \<open>a\<close>, \<open>:\<close>, \<open>b\<close>.
\<close>

theorem escaped_character_is_content:
  "(Escaping p \<longrightarrow>
      Hooks (FeedCharacter c p) = Hooks p @ [OnFieldCharacter c]
      \<and> \<not> Escaping (FeedCharacter c p)
      \<and> InRecord (FeedCharacter c p) = InRecord p)
   \<and> Hooks (fold FeedCharacter
        [CHR ''a'', UnixDSVParser_Escape, UnixDSVParser_Separator, CHR ''b'', newline]
        (DSVParser_new UnixDSVParser_Separator UnixDSVParser_Escape))
     = [OnRecordStart, OnFieldCharacter (CHR ''a''), OnFieldCharacter (CHR '':''),
        OnFieldCharacter (CHR ''b''), OnFieldEnd, OnRecordEnd]"
proof
  show "Escaping p \<longrightarrow>
      Hooks (FeedCharacter c p) = Hooks p @ [OnFieldCharacter c]
      \<and> \<not> Escaping (FeedCharacter c p)
      \<and> InRecord (FeedCharacter c p) = InRecord p"
    by (simp add: FeedCharacter_def HandleParsedCharacter_def)
next
  show "Hooks (fold FeedCharacter
        [CHR ''a'', UnixDSVParser_Escape, UnixDSVParser_Separator, CHR ''b'', newline]
        (DSVParser_new UnixDSVParser_Separator UnixDSVParser_Escape))
     = [OnRecordStart, OnFieldCharacter (CHR ''a''), OnFieldCharacter (CHR '':''),
        OnFieldCharacter (CHR ''b''), OnFieldEnd, OnRecordEnd]"
    by (simp add: dsv_defs)
qed

text \<open>
  The state after \<open>a\<close>, \<open>\\<close> has Escaping set; the separator, the escape character
  and the newline fed there are each delivered as content.
\<close>

theorem escaped_character_is_content_witness:
  "Escaping (fold FeedCharacter [CHR ''a'', UnixDSVParser_Escape]
       (DSVParser_new UnixDSVParser_Separator UnixDSVParser_Escape))
   \<and> Hooks (FeedCharacter UnixDSVParser_Separator
        (fold FeedCharacter [CHR ''a'', UnixDSVParser_Escape]
          (DSVParser_new UnixDSVParser_Separator UnixDSVParser_Escape)))
     = [OnRecordStart, OnFieldCharacter (CHR ''a''), OnFieldCharacter (CHR '':'')]
   \<and> Hooks (FeedCharacter newline
        (fold FeedCharacter [CHR ''a'', UnixDSVParser_Escape]
          (DSVParser_new UnixDSVParser_Separator UnixDSVParser_Escape)))
     = [OnRecordStart, OnFieldCharacter (CHR ''a''), OnFieldCharacter newline]"
proof -
  let ?p = "fold FeedCharacter [CHR ''a'', UnixDSVParser_Escape]
       (DSVParser_new UnixDSVParser_Separator UnixDSVParser_Escape)"
  have e: "Escaping ?p" by (simp add: dsv_defs)
  have h: "Hooks ?p = [OnRecordStart, OnFieldCharacter (CHR ''a'')]"
    by (simp add: dsv_defs)
  from escaped_character_is_content [of ?p UnixDSVParser_Separator] e h
  have 1: "Hooks (FeedCharacter UnixDSVParser_Separator ?p)
     = [OnRecordStart, OnFieldCharacter (CHR ''a''), OnFieldCharacter (CHR '':'')]"
    by (simp add: UnixDSVParser_Separator_def)
  from escaped_character_is_content [of ?p newline] e h
  have 2: "Hooks (FeedCharacter newline ?p)
     = [OnRecordStart, OnFieldCharacter (CHR ''a''), OnFieldCharacter newline]"
    by simp
  from e 1 2 show ?thesis by blast
qed

section \<open>Separator and escape configured as the same character\<close>

text \<open>
  C3, as claimed: with the separator equal to the escape character, feeding that
  character while Escaping is false and InRecord is true sets Escaping and calls no
  hook. The chain in HandleParsedCharacter tests the separator before the escape
  character, so this fails: after \<open>a\<close>, with both configured as \<open>:\<close>, feeding \<open>:\<close>
  calls OnFieldEnd and leaves Escaping false.
\<close>

theorem same_separator_and_escape_counterexample:
  "Separator (FeedCharacter (CHR ''a'') (DSVParser_new (CHR '':'') (CHR '':'')))
     = Escape (FeedCharacter (CHR ''a'') (DSVParser_new (CHR '':'') (CHR '':'')))
   \<and> \<not> Escaping (FeedCharacter (CHR ''a'') (DSVParser_new (CHR '':'') (CHR '':'')))
   \<and> InRecord (FeedCharacter (CHR ''a'') (DSVParser_new (CHR '':'') (CHR '':'')))
   \<and> \<not> Escaping (FeedCharacter (CHR '':'')
          (FeedCharacter (CHR ''a'') (DSVParser_new (CHR '':'') (CHR '':''))))
   \<and> Hooks (FeedCharacter (CHR '':'')
          (FeedCharacter (CHR ''a'') (DSVParser_new (CHR '':'') (CHR '':''))))
      = Hooks (FeedCharacter (CHR ''a'') (DSVParser_new (CHR '':'') (CHR '':'')))
        @ [OnFieldEnd]"
  by (simp add: dsv_defs)

text \<open>
  C3, amended. With the separator equal to the escape character, feeding that character
  while Escaping is false and InRecord is true calls OnFieldEnd, as a field boundary,
  and nothing else; Escaping stays false and InRecord stays true.
\<close>

theorem same_separator_and_escape:
  assumes "Separator p = Escape p" and "\<not> Escaping p" and "InRecord p"
  shows "Hooks (FeedCharacter (Escape p) p) = Hooks p @ [OnFieldEnd]
         \<and> \<not> Escaping (FeedCharacter (Escape p) p)
         \<and> InRecord (FeedCharacter (Escape p) p)"
  using assms by (simp add: FeedCharacter_def HandleParsedCharacter_def)

theorem same_separator_and_escape_witness:
  "Hooks (FeedCharacter (CHR '':'')
      (FeedCharacter (CHR ''a'') (DSVParser_new (CHR '':'') (CHR '':''))))
   = [OnRecordStart, OnFieldCharacter (CHR ''a''), OnFieldEnd]"
proof -
  let ?p = "FeedCharacter (CHR ''a'') (DSVParser_new (CHR '':'') (CHR '':''))"
  have a: "Separator ?p = Escape ?p" "\<not> Escaping ?p" "InRecord ?p"
    and e: "Escape ?p = CHR '':''"
    and h: "Hooks ?p = [OnRecordStart, OnFieldCharacter (CHR ''a'')]"
    by (simp_all add: dsv_defs)
  from same_separator_and_escape [OF a] e h show ?thesis by simp
qed

section \<open>FinishParsing\<close>

text \<open>
  C5. When InRecord is true, FinishParsing calls OnFieldEnd and then OnRecordEnd, and
  nothing else, and clears both flags; when InRecord is false it calls nothing and
  changes nothing. So a second FinishParsing right after a first one calls nothing, in
  every state.
\<close>

theorem FinishParsing_idempotent:
  "FinishParsing p =
     (if InRecord p
      then p\<lparr>Escaping := False, InRecord := False,
             Hooks := Hooks p @ [OnFieldEnd, OnRecordEnd]\<rparr>
      else p)
   \<and> FinishParsing (FinishParsing p) = FinishParsing p"
  by (simp add: FinishParsing_def emit_def)

text \<open>
  C10. In a state with InRecord and Escaping both true (the input ended in an escape
  character that escapes nothing), FinishParsing calls OnFieldEnd and then OnRecordEnd
  and no OnFieldCharacter, and leaves both flags false, as the constructor does.
\<close>

theorem FinishParsing_drops_pending_escape:
  assumes "InRecord p" and "Escaping p"
  shows "Hooks (FinishParsing p) = Hooks p @ [OnFieldEnd, OnRecordEnd]
         \<and> \<not> Escaping (FinishParsing p) \<and> \<not> InRecord (FinishParsing p)
         \<and> FinishParsing p = (DSVParser_new (Separator p) (Escape p))
               \<lparr>Hooks := Hooks p @ [OnFieldEnd, OnRecordEnd]\<rparr>"
  using assms by (simp add: FinishParsing_def emit_def DSVParser_new_def)

text \<open>Such a state is reached by feeding \<open>a\<close> and then the escape character.\<close>

theorem FinishParsing_drops_pending_escape_witness:
  "InRecord (fold FeedCharacter [CHR ''a'', UnixDSVParser_Escape]
       (DSVParser_new UnixDSVParser_Separator UnixDSVParser_Escape))
   \<and> Escaping (fold FeedCharacter [CHR ''a'', UnixDSVParser_Escape]
       (DSVParser_new UnixDSVParser_Separator UnixDSVParser_Escape))
   \<and> Hooks (FinishParsing (fold FeedCharacter [CHR ''a'', UnixDSVParser_Escape]
       (DSVParser_new UnixDSVParser_Separator UnixDSVParser_Escape)))
     = [OnRecordStart, OnFieldCharacter (CHR ''a''), OnFieldEnd, OnRecordEnd]"
proof -
  let ?p = "fold FeedCharacter [CHR ''a'', UnixDSVParser_Escape]
       (DSVParser_new UnixDSVParser_Separator UnixDSVParser_Escape)"
  have i: "InRecord ?p" and e: "Escaping ?p"
    and h: "Hooks ?p = [OnRecordStart, OnFieldCharacter (CHR ''a'')]"
    by (simp_all add: dsv_defs)
  from FinishParsing_drops_pending_escape [OF i e] i e h show ?thesis by simp
qed

section \<open>Record starts and record ends\<close>

lemma FeedCharacter_balance:
  "int (starts (FeedCharacter c p)) - int (ends (FeedCharacter c p))
     - (if InRecord (FeedCharacter c p) then 1 else 0)
   = int (starts p) - int (ends p) - (if InRecord p then 1 else 0)"
  by (simp add: starts_def ends_def FeedCharacter_def HandleParsedCharacter_def Let_def)

lemma fold_FeedCharacter_balance:
  "int (starts (fold FeedCharacter cs p)) - int (ends (fold FeedCharacter cs p))
     - (if InRecord (fold FeedCharacter cs p) then 1 else 0)
   = int (starts p) - int (ends p) - (if InRecord p then 1 else 0)"
proof (induction cs arbitrary: p)
  case Nil
  show ?case by simp
next
  case (Cons c cs)
  have "int (starts (fold FeedCharacter (c # cs) p))
          - int (ends (fold FeedCharacter (c # cs) p))
          - (if InRecord (fold FeedCharacter (c # cs) p) then 1 else 0)
      = int (starts (FeedCharacter c p)) - int (ends (FeedCharacter c p))
          - (if InRecord (FeedCharacter c p) then 1 else 0)"
    using Cons.IH [of "FeedCharacter c p"] by simp
  also have "\<dots> = int (starts p) - int (ends p) - (if InRecord p then 1 else 0)"
    by (rule FeedCharacter_balance)
  finally show ?case .
qed

lemma FinishParsing_balance:
  "int (starts (FinishParsing p)) - int (ends (FinishParsing p))
   = int (starts p) - int (ends p) - (if InRecord p then 1 else 0)"
  by (simp add: starts_def ends_def FinishParsing_def)

lemma new_balance:
  "int (starts (DSVParser_new sep esc)) - int (ends (DSVParser_new sep esc))
     - (if InRecord (DSVParser_new sep esc) then 1 else 0) = 0"
  by (simp add: starts_def ends_def DSVParser_new_def)

text \<open>
  C1. Whatever characters are fed from the initial state: after every prefix of them
  the number of OnRecordStart calls minus the number of OnRecordEnd calls is one when
  InRecord is true and zero when it is false, and after FinishParsing the two numbers
  are equal.
\<close>

theorem starts_match_ends:
  "int (starts (fold FeedCharacter (take n cs) (DSVParser_new sep esc)))
     - int (ends (fold FeedCharacter (take n cs) (DSVParser_new sep esc)))
   = (if InRecord (fold FeedCharacter (take n cs) (DSVParser_new sep esc)) then 1 else 0)
   \<and> starts (FinishParsing (fold FeedCharacter cs (DSVParser_new sep esc)))
     = ends (FinishParsing (fold FeedCharacter cs (DSVParser_new sep esc)))"
proof
  let ?p = "fold FeedCharacter (take n cs) (DSVParser_new sep esc)"
  from fold_FeedCharacter_balance [of "take n cs" "DSVParser_new sep esc"]
  have "int (starts ?p) - int (ends ?p) - (if InRecord ?p then 1 else 0) = 0"
    by (simp only: new_balance)
  then show "int (starts ?p) - int (ends ?p) = (if InRecord ?p then 1 else 0)"
    by simp
next
  let ?q = "fold FeedCharacter cs (DSVParser_new sep esc)"
  from fold_FeedCharacter_balance [of cs "DSVParser_new sep esc"]
  have "int (starts ?q) - int (ends ?q) - (if InRecord ?q then 1 else 0) = 0"
    by (simp only: new_balance)
  then have "int (starts (FinishParsing ?q)) - int (ends (FinishParsing ?q)) = 0"
    by (simp only: FinishParsing_balance)
  then show "starts (FinishParsing ?q) = ends (FinishParsing ?q)"
    by simp
qed

section \<open>Blank lines\<close>

lemma FeedCharacter_newline_idle:
  assumes "\<not> Escaping p" and "\<not> InRecord p"
    and "Separator p \<noteq> newline" and "Escape p \<noteq> newline"
  shows "FeedCharacter newline p = p"
  using assms by (auto simp add: FeedCharacter_def HandleParsedCharacter_def)

text \<open>
  C6. With a separator and an escape character that are not the newline, feeding any
  number \<open>n\<close> of newlines from the initial state calls no hook and leaves the parser
  in the initial state; two newlines are the case \<open>n = 2\<close>.
\<close>

theorem blank_lines_are_skipped:
  assumes "sep \<noteq> newline" and "esc \<noteq> newline"
  shows "fold FeedCharacter (replicate n newline) (DSVParser_new sep esc)
         = DSVParser_new sep esc"
proof (induction n)
  case 0
  show ?case by simp
next
  case (Suc n)
  have "FeedCharacter newline (DSVParser_new sep esc) = DSVParser_new sep esc"
    using assms by (intro FeedCharacter_newline_idle) (simp_all add: DSVParser_new_def)
  with Suc.IH show ?case by simp
qed

theorem blank_lines_are_skipped_witness:
  "UnixDSVParser_Separator \<noteq> newline \<and> UnixDSVParser_Escape \<noteq> newline
   \<and> Hooks (fold FeedCharacter [newline, newline]
        (DSVParser_new UnixDSVParser_Separator UnixDSVParser_Escape)) = []
   \<and> \<not> InRecord (fold FeedCharacter [newline, newline]
        (DSVParser_new UnixDSVParser_Separator UnixDSVParser_Escape))
   \<and> \<not> Escaping (fold FeedCharacter [newline, newline]
        (DSVParser_new UnixDSVParser_Separator UnixDSVParser_Escape))"
proof -
  have s: "UnixDSVParser_Separator \<noteq> newline"
    and e: "UnixDSVParser_Escape \<noteq> newline"
    by (simp_all add: UnixDSVParser_Separator_def UnixDSVParser_Escape_def newline_def)
  have r: "replicate 2 newline = [newline, newline]"
    by (simp add: numeral_2_eq_2)
  from blank_lines_are_skipped [OF s e, of 2] s e show ?thesis
    unfolding r by (simp add: DSVParser_new_def)
qed

section \<open>A pending escape is inside a record\<close>

lemma Escape_FeedCharacter: "Escape (FeedCharacter c p) = Escape p"
  by (simp add: FeedCharacter_def HandleParsedCharacter_def Let_def)

lemma FeedCharacter_escaping_in_record:
  assumes "Escape p \<noteq> newline" and "Escaping p \<longrightarrow> InRecord p"
  shows "Escaping (FeedCharacter c p) \<longrightarrow> InRecord (FeedCharacter c p)"
  using assms
  by (auto simp add: FeedCharacter_def HandleParsedCharacter_def Let_def split: if_splits)

lemma reachable_escaping_in_record:
  assumes "reachable sep esc p"
  shows "Escape p = esc \<and> (esc \<noteq> newline \<longrightarrow> Escaping p \<longrightarrow> InRecord p)"
  using assms
proof (induction rule: reachable.induct)
  case constructed
  show ?case by (simp add: DSVParser_new_def)
next
  case (fed p c)
  then show ?case
    using FeedCharacter_escaping_in_record [of p c] by (simp add: Escape_FeedCharacter)
next
  case (finished p)
  then show ?case by (auto simp add: FinishParsing_def)
next
  case (was_reset p)
  then show ?case by (simp add: Reset_def)
qed

text \<open>
  C9. When the escape character is not the newline, in every state reached from the
  initial state by FeedCharacter, FinishParsing and Reset calls in any order, Escaping
  true implies InRecord true.
\<close>

theorem escaping_only_in_record:
  assumes "esc \<noteq> newline" and "reachable sep esc p" and "Escaping p"
  shows "InRecord p"
  using reachable_escaping_in_record [OF assms(2)] assms(1,3) by simp

theorem escaping_only_in_record_witness:
  "UnixDSVParser_Escape \<noteq> newline
   \<and> reachable UnixDSVParser_Separator UnixDSVParser_Escape
       (FeedCharacter UnixDSVParser_Escape (Reset (FinishParsing (FeedCharacter (CHR ''a'')
          (DSVParser_new UnixDSVParser_Separator UnixDSVParser_Escape)))))
   \<and> Escaping
       (FeedCharacter UnixDSVParser_Escape (Reset (FinishParsing (FeedCharacter (CHR ''a'')
          (DSVParser_new UnixDSVParser_Separator UnixDSVParser_Escape)))))
   \<and> InRecord
       (FeedCharacter UnixDSVParser_Escape (Reset (FinishParsing (FeedCharacter (CHR ''a'')
          (DSVParser_new UnixDSVParser_Separator UnixDSVParser_Escape)))))"
proof -
  let ?p = "FeedCharacter UnixDSVParser_Escape (Reset (FinishParsing
      (FeedCharacter (CHR ''a'')
        (DSVParser_new UnixDSVParser_Separator UnixDSVParser_Escape))))"
  have n: "UnixDSVParser_Escape \<noteq> newline"
    by (simp add: UnixDSVParser_Escape_def newline_def)
  have r: "reachable UnixDSVParser_Separator UnixDSVParser_Escape ?p"
    by (intro reachable.intros)
  have e: "Escaping ?p"
    by (simp add: dsv_defs)
  from escaping_only_in_record [OF n r e] n r e show ?thesis by blast
qed

section \<open>Parse over the string readers\<close>

text \<open>One round of the loop, for each way it can go.\<close>

lemma Parse_at_end:
  "IsEOF reader = Inr True \<Longrightarrow> Parse IsEOF ReadChar reader p = Some (Inr (p, reader))"
  by (subst Parse.simps) simp

lemma Parse_step:
  "IsEOF reader = Inr False \<Longrightarrow> ReadChar reader = Inr (c, reader') \<Longrightarrow>
   Parse IsEOF ReadChar reader p = Parse IsEOF ReadChar reader' (FeedCharacter c p)"
  by (subst Parse.simps) (simp add: FeedCharacter_def)

text \<open>
  A StringReader whose \<open>End\<close> is the end of its string, anywhere in the string: the
  loop feeds the characters from \<open>Current\<close> on and stops with \<open>Current\<close> at \<open>End\<close>.
\<close>

lemma Parse_StringReader_from:
  assumes "End r = length (StringReader.BackingString r)"
    and "StringReader.Current r \<le> End r"
  shows "Parse StringReader_IsEOF StringReader_ReadChar r p
         = Some (Inr (fold FeedCharacter
                        (drop (StringReader.Current r) (StringReader.BackingString r)) p,
                      r\<lparr>StringReader.Current := End r\<rparr>))"
  using assms
proof (induction "End r - StringReader.Current r" arbitrary: r p)
  case 0
  then have "StringReader.Current r = End r" by simp
  then show ?case
    using "0.prems" by (simp add: Parse_at_end StringReader_IsEOF_def)
next
  case (Suc k)
  let ?i = "StringReader.Current r"
  let ?s = "StringReader.BackingString r"
  let ?r' = "r\<lparr>StringReader.Current := ?i + 1\<rparr>"
  from Suc.hyps(2) Suc.prems have lt: "?i < length ?s" and ne: "?i \<noteq> End r"
    by simp_all
  have eof: "StringReader_IsEOF r = Inr False"
    using ne by (simp add: StringReader_IsEOF_def)
  have rd: "StringReader_ReadChar r = Inr (?s ! ?i, ?r')"
    using ne lt by (simp add: StringReader_ReadChar_def)
  have "Parse StringReader_IsEOF StringReader_ReadChar r p
        = Parse StringReader_IsEOF StringReader_ReadChar ?r' (FeedCharacter (?s ! ?i) p)"
    using eof rd by (rule Parse_step)
  also have "\<dots> = Some (Inr (fold FeedCharacter (drop (?i + 1) ?s)
                               (FeedCharacter (?s ! ?i) p),
                             ?r'\<lparr>StringReader.Current := End ?r'\<rparr>))"
    using Suc.hyps(1) [of ?r' "FeedCharacter (?s ! ?i) p"] Suc.hyps(2) Suc.prems lt
    by simp
  also have "fold FeedCharacter (drop (?i + 1) ?s) (FeedCharacter (?s ! ?i) p)
             = fold FeedCharacter (drop ?i ?s) p"
    using lt by (simp add: Cons_nth_drop_Suc [symmetric])
  finally show ?case by simp
qed

text \<open>
  A CStringReader among characters that hold no \<open>'\0'\<close> up to a \<open>'\0'\<close>: the loop
  feeds these characters and stops at the \<open>'\0'\<close>.
\<close>

lemma Parse_CStringReader_from:
  assumes "NUL \<notin> set s"
  shows "Parse CStringReader_IsEOF CStringReader_ReadChar
           \<lparr>BackingString = pre @ s @ NUL # rest, Current = length pre\<rparr> p
         = Some (Inr (fold FeedCharacter s p,
                      \<lparr>BackingString = pre @ s @ NUL # rest,
                       Current = length pre + length s\<rparr>))"
  using assms
proof (induction s arbitrary: pre p)
  case Nil
  have "CStringReader_IsEOF \<lparr>BackingString = pre @ NUL # rest, Current = length pre\<rparr>
        = Inr True"
    by (simp add: CStringReader_IsEOF_def deref_def)
  then show ?case by (simp add: Parse_at_end)
next
  case (Cons c s)
  let ?mem = "pre @ c # s @ NUL # rest"
  let ?r = "\<lparr>BackingString = ?mem, Current = length pre\<rparr>"
  let ?r' = "\<lparr>BackingString = ?mem, Current = length pre + 1\<rparr>"
  from Cons.prems have c: "c \<noteq> NUL" and s: "NUL \<notin> set s" by auto
  have d: "deref ?r = Inr c"
    by (simp add: deref_def)
  have eof: "CStringReader_IsEOF ?r = Inr False"
    using c by (simp add: CStringReader_IsEOF_def d)
  have rd: "CStringReader_ReadChar ?r = Inr (c, ?r')"
    using c by (simp add: CStringReader_ReadChar_def d)
  have m: "?mem = (pre @ [c]) @ s @ NUL # rest" by simp
  have "Parse CStringReader_IsEOF CStringReader_ReadChar ?r p
        = Parse CStringReader_IsEOF CStringReader_ReadChar ?r' (FeedCharacter c p)"
    using eof rd by (rule Parse_step)
  also have "\<dots> = Some (Inr (fold FeedCharacter s (FeedCharacter c p),
                 \<lparr>BackingString = ?mem, Current = length pre + 1 + length s\<rparr>))"
    using Cons.IH [OF s, of "pre @ [c]" "FeedCharacter c p"] unfolding m by simp
  finally show ?case by simp
qed

text \<open>
  C8. For every string \<open>s\<close>, Parse over a StringReader on \<open>s\<close>, and over a
  CStringReader on the characters of \<open>s\<close> followed by the terminating \<open>'\0'\<close>
  (where \<open>s\<close>, being a C string, holds no \<open>'\0'\<close> itself), returns normally with the
  parser that FeedCharacter on each character of \<open>s\<close> in order gives, and with no
  FinishParsing after them: the end of the supply ends the loop and is no error.
\<close>

theorem Parse_feeds_each_character:
  "Parse StringReader_IsEOF StringReader_ReadChar (StringReader_new s) p
     = Some (Inr (fold FeedCharacter s p,
                  (StringReader_new s)\<lparr>StringReader.Current := length s\<rparr>))
   \<and> (NUL \<notin> set s \<longrightarrow>
        Parse CStringReader_IsEOF CStringReader_ReadChar
          (CStringReader_new (s @ NUL # rest)) p
        = Some (Inr (fold FeedCharacter s p,
                     (CStringReader_new (s @ NUL # rest))
                       \<lparr>CStringReader.Current := length s\<rparr>)))"
proof (intro conjI impI)
  show "Parse StringReader_IsEOF StringReader_ReadChar (StringReader_new s) p
     = Some (Inr (fold FeedCharacter s p,
                  (StringReader_new s)\<lparr>StringReader.Current := length s\<rparr>))"
    using Parse_StringReader_from [of "StringReader_new s" p]
    by (simp add: StringReader_new_def)
next
  assume "NUL \<notin> set s"
  from Parse_CStringReader_from [OF this, of "[]" rest p]
  show "Parse CStringReader_IsEOF CStringReader_ReadChar
          (CStringReader_new (s @ NUL # rest)) p
        = Some (Inr (fold FeedCharacter s p,
                     (CStringReader_new (s @ NUL # rest))
                       \<lparr>CStringReader.Current := length s\<rparr>))"
    by (simp add: CStringReader_new_def)
qed

text \<open>
  On \<open>a:b\<close> with no newline, both readers leave the record open: the sink has seen no
  OnRecordEnd and InRecord is still true.
\<close>

theorem Parse_feeds_each_character_witness:
  "NUL \<notin> set '':ab''
   \<and> Parse StringReader_IsEOF StringReader_ReadChar (StringReader_new ''a:b'')
       (DSVParser_new UnixDSVParser_Separator UnixDSVParser_Escape)
     = Some (Inr (\<lparr>Escaping = False, InRecord = True,
                   Separator = UnixDSVParser_Separator, Escape = UnixDSVParser_Escape,
                   Hooks = [OnRecordStart, OnFieldCharacter (CHR ''a''), OnFieldEnd,
                            OnFieldCharacter (CHR ''b'')]\<rparr>,
                  \<lparr>StringReader.BackingString = ''a:b'', StringReader.Current = 3, End = 3\<rparr>))
   \<and> Parse CStringReader_IsEOF CStringReader_ReadChar
       (CStringReader_new [CHR ''a'', CHR '':'', CHR ''b'', NUL])
       (DSVParser_new UnixDSVParser_Separator UnixDSVParser_Escape)
     = Some (Inr (\<lparr>Escaping = False, InRecord = True,
                   Separator = UnixDSVParser_Separator, Escape = UnixDSVParser_Escape,
                   Hooks = [OnRecordStart, OnFieldCharacter (CHR ''a''), OnFieldEnd,
                            OnFieldCharacter (CHR ''b'')]\<rparr>,
                  \<lparr>BackingString = [CHR ''a'', CHR '':'', CHR ''b'', NUL], Current = 3\<rparr>))"
proof -
  let ?p = "DSVParser_new UnixDSVParser_Separator UnixDSVParser_Escape"
  have n: "NUL \<notin> set ''a:b''" "NUL \<notin> set '':ab''"
    by (simp_all add: NUL_def)
  have f: "fold FeedCharacter ''a:b'' ?p
      = \<lparr>Escaping = False, InRecord = True,
          Separator = UnixDSVParser_Separator, Escape = UnixDSVParser_Escape,
          Hooks = [OnRecordStart, OnFieldCharacter (CHR ''a''), OnFieldEnd,
                   OnFieldCharacter (CHR ''b'')]\<rparr>"
    by (simp add: dsv_defs)
  from Parse_feeds_each_character [of "''a:b''" ?p "[]"] n f show ?thesis
    by (simp add: StringReader_new_def CStringReader_new_def)
qed

end
